theory Spec2Isabelle
  imports Main "HOL-Library.Word"
begin

unbundle bit_operations_syntax

section \<open>A shallow embedding of the LC-3 virtual machine of \<^verbatim>\<open>vm.py\<close>\<close>

text \<open>
  The module keeps its machine in globals: the register dictionary \<^verbatim>\<open>reg\<close>, the
  array \<^verbatim>\<open>memory\<close>, the flag \<^verbatim>\<open>is_running\<close> and the two buffers of
  \<^verbatim>\<open>vsys\<close>. Here they are the fields of one record that every function takes and
  returns. Python integers are \<^typ>\<open>int\<close>; the cells of \<^verbatim>\<open>array.array("H")\<close> are
  \<^typ>\<open>16 word\<close>; the bytes of the image file are \<^typ>\<open>8 word\<close>; a Python string is the
  list of its code points. Every \<^verbatim>\<open>raise\<close> is a value \<open>Inl e\<close>.
\<close>

subsection \<open>Data\<close>

type_synonym pystr = "nat list"

definition py :: "string \<Rightarrow> pystr" where
  "py s = map of_char s"

datatype error =
    Exception_bad_opcode int  \<comment> \<open>\<^verbatim>\<open>raise Exception(f'Bad opcode: {op}')\<close>\<close>
  | KeyError                  \<comment> \<open>\<^verbatim>\<open>reg[r]\<close> on a missing key\<close>
  | TypeError                 \<comment> \<open>calling or indexing \<^verbatim>\<open>None\<close>, \<^verbatim>\<open>None % n\<close>\<close>
  | ValueError                \<comment> \<open>negative shift count, \<^verbatim>\<open>chr\<close> out of range, \<^verbatim>\<open>frombytes\<close> of an odd length\<close>
  | IndexError                \<comment> \<open>array index out of range\<close>
  | OverflowError             \<comment> \<open>a value outside 0..65535 stored into an \<^verbatim>\<open>"H"\<close> array\<close>
  | UnsupportedOperation      \<comment> \<open>\<^verbatim>\<open>sys.stdout.read\<close>\<close>
  | UnicodeEncodeError        \<comment> \<open>\<^verbatim>\<open>sys.stdout.write\<close> of a character the stream cannot encode\<close>
  | BlockedOnInput            \<comment> \<open>not an exception: \<^verbatim>\<open>getch.getch()\<close> waits and the input never comes\<close>

datatype fd = Stdin

record vm =
  reg :: "int \<rightharpoonup> int"
  memory :: "16 word list option"
  is_running :: int
  command_buffer :: pystr
  output_buffer :: pystr
  console :: pystr             \<comment> \<open>what has been written to \<^verbatim>\<open>sys.stdout\<close>\<close>
  keys :: "nat list"           \<comment> \<open>characters pending on the input device\<close>
  stdin_writable :: bool       \<comment> \<open>whether the input device is ready for writing\<close>
  stdout_readable :: bool      \<comment> \<open>whether \<^verbatim>\<open>sys.stdout\<close> supports \<^verbatim>\<open>read\<close>\<close>
  stdout_encodable :: "nat \<Rightarrow> bool"  \<comment> \<open>the code points the encoding of \<^verbatim>\<open>sys.stdout\<close> can encode\<close>

abbreviation (input) UINT16_MAX :: int where "UINT16_MAX \<equiv> 2 ^ 16"
abbreviation (input) PC_START :: int where "PC_START \<equiv> 0x3000"

abbreviation (input) R_R0 :: int where "R_R0 \<equiv> 0"
abbreviation (input) R_R7 :: int where "R_R7 \<equiv> 7"
abbreviation (input) R_PC :: int where "R_PC \<equiv> 8"
abbreviation (input) R_COND :: int where "R_COND \<equiv> 9"
abbreviation (input) R_COUNT :: int where "R_COUNT \<equiv> 10"

abbreviation (input) FL_POS :: int where "FL_POS \<equiv> 1"
abbreviation (input) FL_ZRO :: int where "FL_ZRO \<equiv> 2"
abbreviation (input) FL_NEG :: int where "FL_NEG \<equiv> 4"

abbreviation (input) Mr_KBSR :: int where "Mr_KBSR \<equiv> 0xFE00"
abbreviation (input) Mr_KBDR :: int where "Mr_KBDR \<equiv> 0xFE02"

definition bind_r :: "error + 'a \<Rightarrow> ('a \<Rightarrow> error + 'b) \<Rightarrow> error + 'b" where
  "bind_r m f = (case m of Inl e \<Rightarrow> Inl e | Inr x \<Rightarrow> f x)"

subsection \<open>Strings\<close>

text \<open>\<^verbatim>\<open>str(n)\<close> of an integer, as the f-strings of the handlers format it.\<close>

fun str_nat :: "nat \<Rightarrow> pystr" where
  "str_nat n = (if n < 10 then [48 + n] else str_nat (n div 10) @ [48 + n mod 10])"

declare str_nat.simps [simp del]

definition str_int :: "int \<Rightarrow> pystr" where
  "str_int i = (if i < 0 then 45 # str_nat (nat (- i)) else str_nat (nat i))"

text \<open>\<^verbatim>\<open>chr(i)\<close> raises outside \<^verbatim>\<open>range(0x110000)\<close>.\<close>

definition chr_py :: "int \<Rightarrow> error + pystr" where
  "chr_py i = (if 0 \<le> i \<and> i < 0x110000 then Inr [nat i] else Inl ValueError)"

subsection \<open>The console: \<^verbatim>\<open>vsys.stdout\<close>, \<^verbatim>\<open>getch\<close>, \<^verbatim>\<open>select\<close>\<close>

text \<open>
  \<^verbatim>\<open>sys.stdout.write(c)\<close> encodes the whole string before anything is written, and
  raises \<^verbatim>\<open>UnicodeEncodeError\<close> when a character of it cannot be encoded. The
  default stream encodes with UTF-8 and strict error handling: every code point but the
  surrogates 0xD800..0xDFFF.
\<close>

definition utf8_encodable :: "nat \<Rightarrow> bool" where
  "utf8_encodable c = (c < 0xD800 \<or> 0xDFFF < c)"

definition sys_stdout_write :: "pystr \<Rightarrow> vm \<Rightarrow> error + vm" where
  "sys_stdout_write c s =
     (if list_all (stdout_encodable s) c then Inr (s\<lparr>console := console s @ c\<rparr>)
      else Inl UnicodeEncodeError)"

text \<open>
  \<^verbatim>\<open>vsys.stdout.write(c)\<close> writes to the real stream and then appends to the buffer
  of the step; \<^verbatim>\<open>flush\<close> changes nothing that is modelled. \<^verbatim>\<open>print(x)\<close> writes
  \<open>x\<close> and then the newline to the real stream.
\<close>

definition vsys_stdout_write :: "pystr \<Rightarrow> vm \<Rightarrow> error + vm" where
  "vsys_stdout_write c s =
     bind_r (sys_stdout_write c s) (\<lambda>s1. Inr (s1\<lparr>output_buffer := output_buffer s1 @ c\<rparr>))"

definition print_py :: "pystr \<Rightarrow> vm \<Rightarrow> error + vm" where
  "print_py x s = bind_r (sys_stdout_write x s) (\<lambda>s1. sys_stdout_write [10] s1)"

definition vsys_stdout_flush :: "vm \<Rightarrow> vm" where
  "vsys_stdout_flush s = s"

text \<open>
  \<^verbatim>\<open>vsys.stdout.read(n)\<close> calls \<^verbatim>\<open>sys.stdout.read(n)\<close>, which raises on a stream
  that is not readable, drops what it returns and has no \<^verbatim>\<open>return\<close> of its own:
  its value is \<^verbatim>\<open>None\<close>, here \<open>()\<close>.
\<close>

definition vsys_stdout_read :: "int \<Rightarrow> vm \<Rightarrow> error + unit" where
  "vsys_stdout_read n s = (if stdout_readable s then Inr () else Inl UnsupportedOperation)"

text \<open>
  \<^verbatim>\<open>ord(getch.getch())\<close> waits for one character of the input device and takes it.
  With a finite script of input, a wait on the empty script never ends.
\<close>

definition getch :: "vm \<Rightarrow> error + (int \<times> vm)" where
  "getch s = (case keys s of [] \<Rightarrow> Inl BlockedOnInput
              | k # ks \<Rightarrow> Inr (int k, s\<lparr>keys := ks\<rparr>))"

text \<open>
  \<^verbatim>\<open>select.select(rlist, wlist, xlist, 0)\<close> returns at once the members of \<open>rlist\<close>
  that are ready for reading, those of \<open>wlist\<close> that are ready for writing, and those
  of \<open>xlist\<close> with an exceptional condition (none here).
\<close>

definition select_py :: "fd list \<Rightarrow> fd list \<Rightarrow> fd list \<Rightarrow> vm \<Rightarrow> fd list \<times> fd list \<times> fd list" where
  "select_py rlist wlist xlist s =
     (filter (\<lambda>f. keys s \<noteq> []) rlist, filter (\<lambda>f. stdin_writable s) wlist, [])"

definition check_key :: "vm \<Rightarrow> bool" where
  "check_key s = (case select_py [] [Stdin] [] s of (_, ready, _) \<Rightarrow> list_ex (\<lambda>f. f = Stdin) ready)"

subsection \<open>Registers: \<^verbatim>\<open>register_dict\<close>\<close>

definition reg_set :: "int \<Rightarrow> int \<Rightarrow> vm \<Rightarrow> vm" where
  "reg_set key v s = s\<lparr>reg := (reg s)(key \<mapsto> v mod UINT16_MAX)\<rparr>"

definition reg_get :: "vm \<Rightarrow> int \<Rightarrow> error + int" where
  "reg_get s key = (case reg s key of None \<Rightarrow> Inl KeyError | Some v \<Rightarrow> Inr v)"

text \<open>The module-level \<^verbatim>\<open>reg = register_dict({i: 0 for i in range(R.COUNT)})\<close>.\<close>

definition reg_init :: "int \<rightharpoonup> int" where
  "reg_init = (\<lambda>i. if 0 \<le> i \<and> i < R_COUNT then Some 0 else None)"

subsection \<open>Memory: \<^verbatim>\<open>array.array("H")\<close>\<close>

text \<open>Indexing an array: a negative index counts from the end, anything else out of
  range raises; \<^verbatim>\<open>memory\<close> is \<^verbatim>\<open>None\<close> until an image is loaded.\<close>

definition array_index :: "16 word list \<Rightarrow> int \<Rightarrow> error + nat" where
  "array_index m i =
     (let n = int (length m); j = (if i < 0 then i + n else i)
      in if 0 \<le> j \<and> j < n then Inr (nat j) else Inl IndexError)"

definition memory_get :: "vm \<Rightarrow> int \<Rightarrow> error + int" where
  "memory_get s i =
     (case memory s of None \<Rightarrow> Inl TypeError
      | Some m \<Rightarrow> bind_r (array_index m i) (\<lambda>j. Inr (uint (m ! j))))"

definition memory_set :: "int \<Rightarrow> int \<Rightarrow> vm \<Rightarrow> error + vm" where
  "memory_set i v s =
     (case memory s of None \<Rightarrow> Inl TypeError
      | Some m \<Rightarrow> bind_r (array_index m i) (\<lambda>j.
          if 0 \<le> v \<and> v < 65536 then Inr (s\<lparr>memory := Some (m[j := word_of_int v])\<rparr>)
          else Inl OverflowError))"

definition memory_len :: "vm \<Rightarrow> error + int" where
  "memory_len s = (case memory s of None \<Rightarrow> Inl TypeError | Some m \<Rightarrow> Inr (int (length m)))"

definition mem_write :: "int \<Rightarrow> int \<Rightarrow> vm \<Rightarrow> error + vm" where
  "mem_write address val s = (let address = address mod UINT16_MAX in memory_set address val s)"

definition mem_read :: "int \<Rightarrow> vm \<Rightarrow> error + (int \<times> vm)" where
  "mem_read address s =
     (let address = address mod UINT16_MAX in
      bind_r (if address = Mr_KBSR then
                (if check_key s then
                   bind_r (memory_set Mr_KBSR (push_bit 15 1) s) (\<lambda>s1.
                   bind_r (getch s1) (\<lambda>(k, s2).
                   memory_set Mr_KBDR k s2))
                 else memory_set Mr_KBSR 0 s)
              else Inr s) (\<lambda>s'.
      bind_r (memory_get s' address) (\<lambda>v. Inr (v, s'))))"

subsection \<open>\<^verbatim>\<open>sign_extend\<close> and \<^verbatim>\<open>update_flags\<close>\<close>

text \<open>A shift by a negative count raises \<^verbatim>\<open>ValueError\<close>.\<close>

definition sign_extend :: "int \<Rightarrow> int \<Rightarrow> error + int" where
  "sign_extend x bit_count =
     (if bit_count - 1 < 0 then Inl ValueError
      else Inr ((if (drop_bit (nat (bit_count - 1)) x) AND 1 \<noteq> 0
                 then x OR push_bit (nat bit_count) 0xFFFF else x) AND 0xFFFF))"

text \<open>\<^verbatim>\<open>not reg.get(r)\<close> holds for a missing key (\<^verbatim>\<open>None\<close>) and for the value 0.\<close>

definition update_flags :: "int \<Rightarrow> vm \<Rightarrow> vm" where
  "update_flags r s =
     (case reg s r of
        None \<Rightarrow> reg_set R_COND FL_ZRO s
      | Some v \<Rightarrow>
          if v = 0 then reg_set R_COND FL_ZRO s
          else if drop_bit 15 v \<noteq> 0 then reg_set R_COND FL_NEG s
          else reg_set R_COND FL_POS s)"

subsection \<open>Opcode handlers\<close>

text \<open>
  Each handler takes the instruction word and the machine. The decorator
  \<^verbatim>\<open>instruction_decorator\<close> only calls the function it wraps and keeps its name.
\<close>

definition add :: "int \<Rightarrow> vm \<Rightarrow> error + vm" where
  "add instr s =
     (let r0 = drop_bit 9 instr AND 0x7;
          r1 = drop_bit 6 instr AND 0x7;
          imm_flag = drop_bit 5 instr AND 0x1
      in if imm_flag \<noteq> 0 then
           bind_r (sign_extend (instr AND 0x1F) 5) (\<lambda>imm5.
           bind_r (reg_get s r1) (\<lambda>a.
           Inr (update_flags r0 (reg_set r0 (a + imm5) s))))
         else
           (let r2 = instr AND 0x7 in
            bind_r (reg_get s r1) (\<lambda>a.
            bind_r (reg_get s r2) (\<lambda>b.
            Inr (update_flags r0 (reg_set r0 (a + b) s))))))"

definition ldi :: "int \<Rightarrow> vm \<Rightarrow> error + vm" where
  "ldi instr s =
     (let r0 = drop_bit 9 instr AND 0x7 in
      bind_r (sign_extend (instr AND 0x1ff) 9) (\<lambda>pc_offset.
      bind_r (reg_get s R_PC) (\<lambda>pc.
      bind_r (mem_read (pc + pc_offset) s) (\<lambda>(a, s1).
      bind_r (mem_read a s1) (\<lambda>(v, s2).
      Inr (update_flags r0 (reg_set r0 v s2)))))))"

definition and_op :: "int \<Rightarrow> vm \<Rightarrow> error + vm" where
  "and_op instr s =
     (let r0 = drop_bit 9 instr AND 0x7;
          r1 = drop_bit 6 instr AND 0x7;
          r2 = instr AND 0x7;
          imm_flag = drop_bit 5 instr AND 0x1
      in if imm_flag \<noteq> 0 then
           bind_r (sign_extend (instr AND 0x1F) 5) (\<lambda>imm5.
           bind_r (reg_get s r1) (\<lambda>a.
           Inr (update_flags r0 (reg_set r0 (a AND imm5) s))))
         else
           bind_r (reg_get s r1) (\<lambda>a.
           bind_r (reg_get s r2) (\<lambda>b.
           Inr (update_flags r0 (reg_set r0 (a AND b) s)))))"

definition not_op :: "int \<Rightarrow> vm \<Rightarrow> error + vm" where
  "not_op instr s =
     (let r0 = drop_bit 9 instr AND 0x7;
          r1 = drop_bit 6 instr AND 0x7
      in bind_r (reg_get s r1) (\<lambda>a.
         Inr (update_flags r0 (reg_set r0 (NOT a) s))))"

definition br :: "int \<Rightarrow> vm \<Rightarrow> error + vm" where
  "br instr s =
     bind_r (sign_extend (instr AND 0x1ff) 9) (\<lambda>pc_offset.
     let cond_flag = drop_bit 9 instr AND 0x7 in
     bind_r (reg_get s R_COND) (\<lambda>c.
     if cond_flag AND c \<noteq> 0 then
       bind_r (reg_get s R_PC) (\<lambda>pc. Inr (reg_set R_PC (pc + pc_offset) s))
     else Inr s))"

definition jmp :: "int \<Rightarrow> vm \<Rightarrow> error + vm" where
  "jmp instr s =
     (let r1 = drop_bit 6 instr AND 0x7 in
      bind_r (reg_get s r1) (\<lambda>a.
      Inr ((reg_set R_PC a s)\<lparr>command_buffer := py ''JMP '' @ str_int r1 @ py '' ; Move the PC''\<rparr>)))"

definition jsr :: "int \<Rightarrow> vm \<Rightarrow> error + vm" where
  "jsr instr s =
     (let r1 = drop_bit 6 instr AND 0x7 in
      bind_r (sign_extend (instr AND 0x7ff) 11) (\<lambda>long_pc_offset.
      let long_flag = drop_bit 11 instr AND 1 in
      bind_r (reg_get s R_PC) (\<lambda>pc.
      let s1 = reg_set R_R7 pc s in
      if long_flag \<noteq> 0 then
        bind_r (reg_get s1 R_PC) (\<lambda>pc1. Inr (reg_set R_PC (pc1 + long_pc_offset) s1))
      else
        bind_r (reg_get s1 r1) (\<lambda>a. Inr (reg_set R_PC a s1)))))"

definition ld :: "int \<Rightarrow> vm \<Rightarrow> error + vm" where
  "ld instr s =
     (let r0 = drop_bit 9 instr AND 0x7 in
      bind_r (sign_extend (instr AND 0x1ff) 9) (\<lambda>pc_offset.
      bind_r (reg_get s R_PC) (\<lambda>pc.
      bind_r (mem_read (pc + pc_offset) s) (\<lambda>(v, s1).
      Inr (update_flags r0 (reg_set r0 v s1))))))"

definition ldr :: "int \<Rightarrow> vm \<Rightarrow> error + vm" where
  "ldr instr s =
     (let r0 = drop_bit 9 instr AND 0x7;
          r1 = drop_bit 6 instr AND 0x7
      in bind_r (sign_extend (instr AND 0x3F) 6) (\<lambda>offset.
         bind_r (reg_get s r1) (\<lambda>a.
         bind_r (mem_read (a + offset) s) (\<lambda>(v, s1).
         Inr (update_flags r0 (reg_set r0 v s1))))))"

definition lea :: "int \<Rightarrow> vm \<Rightarrow> error + vm" where
  "lea instr s =
     (let r0 = drop_bit 9 instr AND 0x7 in
      bind_r (sign_extend (instr AND 0x1ff) 9) (\<lambda>pc_offset.
      bind_r (reg_get s R_PC) (\<lambda>pc.
      let s1 = update_flags r0 (reg_set r0 (pc + pc_offset) s) in
      bind_r (reg_get s1 r0) (\<lambda>v.
      Inr (s1\<lparr>command_buffer :=
                 py ''LEA '' @ str_int r0 @ py '' '' @ str_int v @ py '' ; Load Effective Address''\<rparr>)))))"

definition st :: "int \<Rightarrow> vm \<Rightarrow> error + vm" where
  "st instr s =
     (let r0 = drop_bit 9 instr AND 0x7 in
      bind_r (sign_extend (instr AND 0x1ff) 9) (\<lambda>pc_offset.
      bind_r (reg_get s R_PC) (\<lambda>pc.
      bind_r (reg_get s r0) (\<lambda>v.
      mem_write (pc + pc_offset) v s))))"

definition sti :: "int \<Rightarrow> vm \<Rightarrow> error + vm" where
  "sti instr s =
     (let r0 = drop_bit 9 instr AND 0x7 in
      bind_r (sign_extend (instr AND 0x1ff) 9) (\<lambda>pc_offset.
      bind_r (reg_get s R_PC) (\<lambda>pc.
      bind_r (mem_read (pc + pc_offset) s) (\<lambda>(a, s1).
      bind_r (reg_get s1 r0) (\<lambda>v.
      mem_write a v s1)))))"

definition str_op :: "int \<Rightarrow> vm \<Rightarrow> error + vm" where
  "str_op instr s =
     (let r0 = drop_bit 9 instr AND 0x7;
          r1 = drop_bit 6 instr AND 0x7
      in bind_r (sign_extend (instr AND 0x3F) 6) (\<lambda>offset.
         bind_r (reg_get s r1) (\<lambda>a.
         bind_r (reg_get s r0) (\<lambda>v.
         mem_write (a + offset) v s))))"

subsection \<open>Traps\<close>

definition trap_getc :: "vm \<Rightarrow> error + vm" where
  "trap_getc s = bind_r (getch s) (\<lambda>(k, s1). Inr (reg_set R_R0 k s1))"

definition trap_out :: "vm \<Rightarrow> error + vm" where
  "trap_out s =
     bind_r (reg_get s R_R0) (\<lambda>a.
     bind_r (chr_py a) (\<lambda>c.
     bind_r (vsys_stdout_write c s) (\<lambda>s0.
     let s1 = vsys_stdout_flush s0 in
     Inr (s1\<lparr>command_buffer := py ''OUT ('' @ output_buffer s1 @ py '') ; output a character''\<rparr>))))"

text \<open>
  \<^verbatim>\<open>reg[R.R0] = vsys.stdout.read(1)\<close>: the value read is \<^verbatim>\<open>None\<close>, and
  \<^verbatim>\<open>None % UINT16_MAX\<close> in \<^verbatim>\<open>__setitem__\<close> raises \<^verbatim>\<open>TypeError\<close>.
\<close>

definition trap_in :: "vm \<Rightarrow> error + vm" where
  "trap_in s =
     bind_r (vsys_stdout_write (py ''Enter a character: '') s) (\<lambda>s1.
     let s2 = vsys_stdout_flush s1;
         s3 = s2\<lparr>command_buffer := py ''IN''\<rparr>
     in bind_r (vsys_stdout_read 1 s3) (\<lambda>none. Inl TypeError))"

text \<open>The \<^verbatim>\<open>for i in range(reg[R.R0], len(memory))\<close> loops, over the list of indices.\<close>

fun trap_puts_loop :: "int list \<Rightarrow> vm \<Rightarrow> error + vm" where
  "trap_puts_loop [] s = Inr s"
| "trap_puts_loop (i # is) s =
     (case memory_get s i of
        Inl e \<Rightarrow> Inl e
      | Inr c \<Rightarrow>
          if c = 0 then Inr s
          else (case chr_py c of
                  Inl e \<Rightarrow> Inl e
                | Inr ch \<Rightarrow>
                    (case vsys_stdout_write ch s of
                       Inl e \<Rightarrow> Inl e
                     | Inr s1 \<Rightarrow> trap_puts_loop is s1)))"

definition trap_puts :: "vm \<Rightarrow> error + vm" where
  "trap_puts s =
     bind_r (reg_get s R_R0) (\<lambda>a.
     bind_r (memory_len s) (\<lambda>n.
     bind_r (trap_puts_loop [a..n - 1] s) (\<lambda>s1.
     Inr (vsys_stdout_flush
            (s1\<lparr>command_buffer :=
                  py ''PUTS ; output a byte string ('' @ output_buffer s1 @ py '')''\<rparr>)))))"

fun trap_putsp_loop :: "int list \<Rightarrow> vm \<Rightarrow> error + vm" where
  "trap_putsp_loop [] s = Inr s"
| "trap_putsp_loop (i # is) s =
     (case memory_get s i of
        Inl e \<Rightarrow> Inl e
      | Inr c \<Rightarrow>
          if c = 0 then Inr s
          else (case chr_py (c AND 0xFF) of
                  Inl e \<Rightarrow> Inl e
                | Inr lo \<Rightarrow>
                    (case vsys_stdout_write lo s of
                       Inl e \<Rightarrow> Inl e
                     | Inr s1 \<Rightarrow>
                         (let char = drop_bit 8 c in
                          if char \<noteq> 0 then
                            (case chr_py char of
                               Inl e \<Rightarrow> Inl e
                             | Inr hi \<Rightarrow>
                                 (case vsys_stdout_write hi s1 of
                                    Inl e \<Rightarrow> Inl e
                                  | Inr s2 \<Rightarrow> trap_putsp_loop is s2))
                          else trap_putsp_loop is s1))))"

definition trap_putsp :: "vm \<Rightarrow> error + vm" where
  "trap_putsp s =
     bind_r (reg_get s R_R0) (\<lambda>a.
     bind_r (memory_len s) (\<lambda>n.
     bind_r (trap_putsp_loop [a..n - 1] s) (\<lambda>s1.
     Inr (vsys_stdout_flush
            (s1\<lparr>command_buffer := py ''PUTS ; ('' @ output_buffer s1 @ py '')''\<rparr>)))))"

text \<open>\<^verbatim>\<open>print('HALT')\<close> goes to the real stream only, with its newline.\<close>

definition trap_halt :: "vm \<Rightarrow> error + vm" where
  "trap_halt s =
     bind_r (print_py (py ''HALT'') s) (\<lambda>s1.
     Inr (s1\<lparr>command_buffer := py ''HALT ; end the program'', is_running := 0\<rparr>))"

definition traps :: "int \<rightharpoonup> (vm \<Rightarrow> error + vm)" where
  "traps = [0x20 \<mapsto> trap_getc, 0x21 \<mapsto> trap_out, 0x22 \<mapsto> trap_puts,
            0x23 \<mapsto> trap_in, 0x24 \<mapsto> trap_putsp, 0x25 \<mapsto> trap_halt]"

text \<open>\<^verbatim>\<open>traps.get(instr & 0xFF)()\<close>: a missing vector gives \<^verbatim>\<open>None\<close>, and calling
  it raises \<^verbatim>\<open>TypeError\<close>.\<close>

definition trap :: "int \<Rightarrow> vm \<Rightarrow> error + vm" where
  "trap instr s = (case traps (instr AND 0xFF) of None \<Rightarrow> Inl TypeError | Some f \<Rightarrow> f s)"

definition bad_opcode :: "int \<Rightarrow> vm \<Rightarrow> error + vm" where
  "bad_opcode op s = Inl (Exception_bad_opcode op)"

text \<open>The table \<^verbatim>\<open>ops\<close>, each handler with its \<^verbatim>\<open>__name__\<close>; 8 and 13 have no entry.\<close>

definition ops :: "int \<rightharpoonup> (string \<times> (int \<Rightarrow> vm \<Rightarrow> error + vm))" where
  "ops = [1 \<mapsto> (''add'', add), 9 \<mapsto> (''not_'', not_op), 5 \<mapsto> (''and_'', and_op),
          0 \<mapsto> (''br'', br), 12 \<mapsto> (''jmp'', jmp), 4 \<mapsto> (''jsr'', jsr),
          2 \<mapsto> (''ld'', ld), 10 \<mapsto> (''ldi'', ldi), 6 \<mapsto> (''ldr'', ldr),
          14 \<mapsto> (''lea'', lea), 3 \<mapsto> (''st'', st), 11 \<mapsto> (''sti'', sti),
          7 \<mapsto> (''str_'', str_op), 15 \<mapsto> (''trap'', trap)]"

definition ops_get :: "int \<Rightarrow> string \<times> (int \<Rightarrow> vm \<Rightarrow> error + vm)" where
  "ops_get op = (case ops op of None \<Rightarrow> (''bad_opcode'', bad_opcode) | Some h \<Rightarrow> h)"

subsection \<open>The image loader\<close>

type_synonym byte = "8 word"

text \<open>\<^verbatim>\<open>int.from_bytes(bs, byteorder='big')\<close>.\<close>

definition from_bytes_big :: "byte list \<Rightarrow> int" where
  "from_bytes_big bs = foldl (\<lambda>acc b. acc * 256 + uint b) 0 bs"

text \<open>
  \<^verbatim>\<open>array.frombytes\<close> appends the items in the byte order of the host, taken to be
  little-endian (the loader's \<^verbatim>\<open>byteswap\<close> presumes it), and raises
  \<^verbatim>\<open>ValueError\<close> when the length is not a multiple of the item size 2.
\<close>

fun items_H :: "byte list \<Rightarrow> 16 word list" where
  "items_H (b0 # b1 # bs) = word_of_int (uint b0 + 256 * uint b1) # items_H bs"
| "items_H bs = []"

definition frombytes :: "16 word list \<Rightarrow> byte list \<Rightarrow> error + 16 word list" where
  "frombytes m bs = (if length bs mod 2 \<noteq> 0 then Inl ValueError else Inr (m @ items_H bs))"

definition byteswap :: "16 word list \<Rightarrow> 16 word list" where
  "byteswap m = map (\<lambda>w. push_bit 8 w OR drop_bit 8 w) m"

text \<open>The two \<^verbatim>\<open>f.read(n)\<close> calls take the next at most \<open>n\<close> bytes of the file.\<close>

definition read_image_file :: "byte list \<Rightarrow> error + 16 word list" where
  "read_image_file f =
     (let origin = from_bytes_big (take 2 f);
          f1 = drop 2 f;
          memory0 = replicate (nat origin) 0;
          max_read = UINT16_MAX - origin
      in bind_r (frombytes memory0 (take (nat max_read) f1)) (\<lambda>memory1.
         let memory2 = byteswap memory1
         in Inr (memory2 @ replicate (nat (UINT16_MAX - int (length memory2))) 0)))"

subsection \<open>The fetch-decode-execute cycle and the generator\<close>

text \<open>
  One event of \<^verbatim>\<open>main_generator\<close>. The first event has no \<^verbatim>\<open>op_code\<close> and no
  \<^verbatim>\<open>output_buffer\<close> key. \<open>ev_memory\<close> is the content of the array when the event is
  yielded.
\<close>

record event =
  ev_PC :: int
  ev_command :: pystr
  ev_op_name :: pystr
  ev_op_code :: "int option"
  ev_output_buffer :: "pystr option"
  ev_memory :: "16 word list option"

text \<open>The body of the \<^verbatim>\<open>while is_running\<close> loop up to its \<^verbatim>\<open>yield\<close>; \<^verbatim>\<open>main\<close> has
  the same body without the event.\<close>

definition cycle :: "vm \<Rightarrow> error + (event \<times> vm)" where
  "cycle s =
     bind_r (reg_get s R_PC) (\<lambda>pc.
     bind_r (mem_read pc s) (\<lambda>(instr, s1).
     bind_r (reg_get s1 R_PC) (\<lambda>pc1.
     let s2 = reg_set R_PC (pc1 + 1) s1;
         op = drop_bit 12 instr;
         (name, handler) = ops_get op
     in bind_r (handler instr s2) (\<lambda>s3.
        bind_r (reg_get s3 R_PC) (\<lambda>pc3.
        Inr (\<lparr>ev_PC = pc3, ev_command = command_buffer s3, ev_op_name = py name,
              ev_op_code = Some op, ev_output_buffer = Some (output_buffer s3),
              ev_memory = memory s3\<rparr>, s3))))))"

text \<open>
  The generator is pulled by its driver: \<open>n\<close> is the number of \<^verbatim>\<open>next\<close> calls made.
  Nothing of the body runs before the first. A pull at the \<^verbatim>\<open>yield\<close> inside the
  loop first empties the two buffers; a pull at the first \<^verbatim>\<open>yield\<close> does not.
\<close>

datatype yield_point = AtOrigYield | AtLoopYield

datatype outcome =
    Suspended vm     \<comment> \<open>the driver stopped pulling; the generator waits at a \<^verbatim>\<open>yield\<close>\<close>
  | Finished vm      \<comment> \<open>\<^verbatim>\<open>is_running\<close> was 0: the generator returned\<close>
  | Faulted error    \<comment> \<open>an exception left the generator\<close>

definition resume :: "yield_point \<Rightarrow> vm \<Rightarrow> vm" where
  "resume yp s = (case yp of AtOrigYield \<Rightarrow> s
                  | AtLoopYield \<Rightarrow> s\<lparr>output_buffer := [], command_buffer := []\<rparr>)"

fun gen_pull :: "nat \<Rightarrow> yield_point \<Rightarrow> vm \<Rightarrow> event list \<times> outcome" where
  "gen_pull 0 yp s = ([], Suspended s)"
| "gen_pull (Suc n) yp s =
     (let s1 = resume yp s in
      if is_running s1 = 0 then ([], Finished s1)
      else (case cycle s1 of
              Inl e \<Rightarrow> ([], Faulted e)
            | Inr (ev, s2) \<Rightarrow>
                (case gen_pull n AtLoopYield s2 of (evs, out) \<Rightarrow> (ev # evs, out))))"

fun main_generator :: "nat \<Rightarrow> byte list \<Rightarrow> vm \<Rightarrow> event list \<times> outcome" where
  "main_generator 0 f s = ([], Suspended s)"
| "main_generator (Suc n) f s =
     (let s0 = s\<lparr>is_running := 1\<rparr> in
      case read_image_file f of
        Inl e \<Rightarrow> ([], Faulted e)
      | Inr m \<Rightarrow>
          (let s1 = reg_set R_PC PC_START (s0\<lparr>memory := Some m\<rparr>) in
           case reg_get s1 R_PC of
             Inl e \<Rightarrow> ([], Faulted e)
           | Inr pc \<Rightarrow>
               (case gen_pull n AtOrigYield s1 of
                  (evs, out) \<Rightarrow>
                    (\<lparr>ev_PC = pc, ev_command = py ''.ORIG x3000'', ev_op_name = py ''.ORIG'',
                      ev_op_code = None, ev_output_buffer = None, ev_memory = memory s1\<rparr> # evs,
                     out))))"

text \<open>The state of the module when it has just been imported, on a console that encodes
  with UTF-8.\<close>

definition vm_init :: "nat list \<Rightarrow> bool \<Rightarrow> bool \<Rightarrow> vm" where
  "vm_init ks w r =
     \<lparr>reg = reg_init, memory = None, is_running = 1, command_buffer = [], output_buffer = [],
      console = [], keys = ks, stdin_writable = w, stdout_readable = r,
      stdout_encodable = utf8_encodable\<rparr>"

subsection \<open>Notions used to state the properties\<close>

text \<open>
  The value of the lower \<open>n\<close> bits of \<open>v\<close> read as a signed two's-complement number
  of \<open>n\<close> bits: the unsigned value \<open>u\<close> of those bits when their top bit is clear,
  and \<open>u - 2 ^ n\<close> when it is set.
\<close>

definition signed_value :: "nat \<Rightarrow> int \<Rightarrow> int" where
  "signed_value n v = (let u = v mod 2 ^ n in if u < 2 ^ (n - 1) then u else u - 2 ^ n)"

text \<open>Every register holds a 16-bit unsigned value.\<close>

definition reg_inv :: "vm \<Rightarrow> bool" where
  "reg_inv s = (\<forall>r v. reg s r = Some v \<longrightarrow> 0 \<le> v \<and> v < 65536)"

definition outcome_inv :: "outcome \<Rightarrow> bool" where
  "outcome_inv out = (case out of Suspended s \<Rightarrow> reg_inv s | Finished s \<Rightarrow> reg_inv s
                      | Faulted e \<Rightarrow> True)"

text \<open>The big-endian 16-bit words of a byte sequence: first byte high, second byte low.\<close>

fun be_words :: "byte list \<Rightarrow> 16 word list" where
  "be_words (b0 # b1 # bs) = word_of_int (256 * uint b0 + uint b1) # be_words bs"
| "be_words bs = []"

section \<open>Properties\<close>

subsection \<open>\<^verbatim>\<open>sign_extend\<close>\<close>

lemma test_bit_drop: "(drop_bit m x AND 1 \<noteq> 0) = bit (x::int) m"
  by (simp add: bit_iff_odd_drop_bit and_one_eq odd_iff_mod_2_eq_one)

lemma ffff_mask: "(65535::int) = mask 16"
  by (simp add: mask_eq_exp_minus_1)

lemma sign_extend_bits:
  "sign_extend x (int (Suc m)) =
     Inr (take_bit 16 (if bit x m then x OR push_bit (Suc m) (mask 16) else x))"
  unfolding sign_extend_def test_bit_drop ffff_mask
  by (simp add: test_bit_drop nat_add_distrib flip: take_bit_eq_mask)

lemma extend_is_signed_take_bit:
  assumes "Suc m \<le> 16"
  shows "take_bit 16 (if bit (take_bit (Suc m) v) m
                      then take_bit (Suc m) v OR push_bit (Suc m) (mask 16)
                      else take_bit (Suc m) v)
         = take_bit 16 (signed_take_bit m (v::int))"
    (is "?l = ?r")
proof (rule bit_eqI)
  fix k
  show "bit ?l k = bit ?r k"
  proof (cases "k \<le> m")
    case True
    then have "min m k = k" by simp
    with True show ?thesis
      by (simp add: bit_take_bit_iff bit_or_iff bit_push_bit_iff bit_signed_take_bit_iff
          del: push_bit_Suc)
  next
    case False
    then have "min m k = m" "Suc m \<le> k" "\<not> k < Suc m" by simp_all
    moreover have "k < 16 \<Longrightarrow> k - Suc m < 16" by simp
    ultimately show ?thesis
      by (auto simp add: bit_take_bit_iff bit_or_iff bit_push_bit_iff bit_mask_iff
          bit_signed_take_bit_iff simp del: push_bit_Suc)
  qed
qed

lemma signed_value_signed_take_bit: "signed_value (Suc m) v = signed_take_bit m v"
proof -
  have lt: "take_bit m v < 2 ^ m" and ge: "0 \<le> take_bit m v" by simp_all
  have top: "take_bit (Suc m) v = 2 ^ m * of_bool (bit v m) + take_bit m v"
    by (rule take_bit_Suc_from_most)
  have u: "v mod 2 ^ Suc m = take_bit (Suc m) v" by (simp only: take_bit_eq_mod)
  show ?thesis
    unfolding signed_value_def Let_def u signed_take_bit_eq_take_bit_minus
    using lt ge by (cases "bit v m") (simp_all add: top)
qed

text \<open>
  C2. For every value \<open>v\<close> (in particular every 16-bit one) and every width \<open>n\<close> from
  1 to 16, \<open>sign_extend\<close> of the lower \<open>n\<close> bits of \<open>v\<close> returns, as an unsigned 16-bit
  word, the value of those bits read as a signed \<open>n\<close>-bit number.
\<close>

theorem sign_extend_signed:
  assumes "1 \<le> n" and "n \<le> 16"
  shows "sign_extend (v AND (2 ^ nat n - 1)) n = Inr (signed_value (nat n) v mod 2 ^ 16)"
proof -
  define m where "m = nat n - 1"
  have n: "n = int (Suc m)" using assms(1) by (simp add: m_def)
  have m: "Suc m \<le> 16" using assms by (simp add: m_def)
  have x: "v AND (2 ^ Suc m - 1) = take_bit (Suc m) v"
    by (simp only: take_bit_eq_mask mask_eq_exp_minus_1)
  show ?thesis
    unfolding n nat_int x sign_extend_bits extend_is_signed_take_bit [OF m]
      signed_value_signed_take_bit
    by (simp only: take_bit_eq_mod)
qed

theorem sign_extend_signed_witness:
  "(1::int) \<le> 5 \<and> (5::int) \<le> 16 \<and> sign_extend (0b10001 AND (2 ^ nat 5 - 1)) 5 = Inr 0xFFF1
   \<and> signed_value (nat 5) 0b10001 = - 15"
  using sign_extend_signed [of 5 "0b10001"] by (simp add: signed_value_def)

subsection \<open>\<^verbatim>\<open>update_flags\<close>\<close>

text \<open>
  C4. When register \<open>r\<close> holds a 16-bit value \<open>v\<close>, \<open>update_flags r\<close> leaves in COND
  the flag ZRO if \<open>v\<close> is 0, NEG if bit 15 of \<open>v\<close> is set, and POS otherwise.
\<close>

theorem update_flags_cond:
  assumes "reg s r = Some v" and "0 \<le> v" and "v < 65536"
  shows "reg (update_flags r s) R_COND =
           Some (if v = 0 then FL_ZRO else if bit v 15 then FL_NEG else FL_POS)"
proof -
  have "(drop_bit 15 v \<noteq> 0) = bit v 15"
  proof -
    have "drop_bit 15 v < 2" "0 \<le> drop_bit 15 v"
      using assms(2,3) by (simp_all add: drop_bit_eq_div)
    then have "drop_bit 15 v = 0 \<or> drop_bit 15 v = 1" by linarith
    then show ?thesis by (auto simp add: bit_iff_odd_drop_bit)
  qed
  then show ?thesis using assms(1) by (simp add: update_flags_def reg_set_def)
qed

theorem update_flags_cond_witness:
  "reg (update_flags 3 (reg_set 3 0 (vm_init [] True False))) R_COND = Some FL_ZRO
   \<and> reg (update_flags 3 (reg_set 3 0x8000 (vm_init [] True False))) R_COND = Some FL_NEG
   \<and> reg (update_flags 3 (reg_set 3 1 (vm_init [] True False))) R_COND = Some FL_POS"
  using update_flags_cond [of "reg_set 3 0 (vm_init [] True False)" 3 0]
    update_flags_cond [of "reg_set 3 0x8000 (vm_init [] True False)" 3 "0x8000"]
    update_flags_cond [of "reg_set 3 1 (vm_init [] True False)" 3 1]
  by (simp add: reg_set_def)

subsection \<open>\<^verbatim>\<open>mem_write\<close>\<close>

lemma array_index_mod:
  assumes "length m = 65536"
  shows "array_index m (a mod 65536) = Inr (nat (a mod 65536))"
proof -
  have "0 \<le> a mod 65536" "a mod 65536 < 65536" by simp_all
  then show ?thesis using assms unfolding array_index_def Let_def by (simp add: not_less)
qed

lemma uint_word16: "0 \<le> v \<Longrightarrow> v < 65536 \<Longrightarrow> uint (word_of_int v :: 16 word) = v"
  by (simp add: uint_word_of_int take_bit_int_eq_self)

text \<open>
  C3, as the code has it. With the 65536 cells of a loaded memory, \<open>mem_write\<close> reduces
  the address modulo 65536 and never fails on the address. The value is not reduced: a
  value from 0 to 65535 is stored as it is at the reduced address (and is read back
  there), and any other value raises \<^verbatim>\<open>OverflowError\<close>, the array taking unsigned
  16-bit items only.
\<close>

theorem mem_write_stores:
  assumes "memory s = Some m" and "length m = 65536"
  shows "if 0 \<le> v \<and> v < 65536
         then mem_write a v s = Inr (s\<lparr>memory := Some (m[nat (a mod 65536) := word_of_int v])\<rparr>)
              \<and> memory_get (s\<lparr>memory := Some (m[nat (a mod 65536) := word_of_int v])\<rparr>)
                   (a mod 65536) = Inr v
         else mem_write a v s = Inl OverflowError"
  using assms
  by (simp add: mem_write_def memory_set_def memory_get_def array_index_mod uint_word16
      bind_r_def Let_def)

theorem mem_write_stores_witness:
  "mem_write 65541 7 ((vm_init [] True False)\<lparr>memory := Some (replicate 65536 0)\<rparr>)
     = Inr ((vm_init [] True False)\<lparr>memory := Some ((replicate 65536 0)[5 := 7])\<rparr>)
   \<and> mem_write 5 (- 1) ((vm_init [] True False)\<lparr>memory := Some (replicate 65536 0)\<rparr>)
     = Inl OverflowError"
  using mem_write_stores [of "(vm_init [] True False)\<lparr>memory := Some (replicate 65536 0)\<rparr>"
      "replicate 65536 0" 7 65541]
    mem_write_stores [of "(vm_init [] True False)\<lparr>memory := Some (replicate 65536 0)\<rparr>"
      "replicate 65536 0" "- 1" 5]
  by simp

text \<open>The value 65536 is not reduced to 0: the write raises.\<close>

theorem mem_write_no_value_reduction:
  "mem_write 0 65536 ((vm_init [] True False)\<lparr>memory := Some (replicate 65536 0)\<rparr>)
     = Inl OverflowError"
  by (simp add: mem_write_def memory_set_def array_index_def bind_r_def)

subsection \<open>Registers hold 16-bit values\<close>

lemma bind_r_Inr_iff: "bind_r m f = Inr y \<longleftrightarrow> (\<exists>x. m = Inr x \<and> f x = Inr y)"
  by (cases m) (simp_all add: bind_r_def)

lemma bind_r_InrE:
  assumes "bind_r m f = Inr y"
  obtains x where "m = Inr x" and "f x = Inr y"
  using assms by (auto simp add: bind_r_Inr_iff)

lemma reg_inv_reg_set: "reg_inv s \<Longrightarrow> reg_inv (reg_set k v s)"
  by (simp add: reg_inv_def reg_set_def)

lemma reg_inv_update_flags: "reg_inv s \<Longrightarrow> reg_inv (update_flags r s)"
  by (simp add: update_flags_def reg_inv_reg_set split: option.splits)

lemma reg_inv_reg_eq: "reg s' = reg s \<Longrightarrow> reg_inv s \<Longrightarrow> reg_inv s'"
  by (simp add: reg_inv_def)

lemma reg_memory_set: "memory_set i v s = Inr s' \<Longrightarrow> reg s' = reg s"
  by (auto simp add: memory_set_def bind_r_Inr_iff split: option.splits if_splits)

lemma reg_getch: "getch s = Inr (k, s') \<Longrightarrow> reg s' = reg s"
  by (auto simp add: getch_def split: list.splits)

lemma reg_mem_write: "mem_write a v s = Inr s' \<Longrightarrow> reg s' = reg s"
  by (simp add: mem_write_def Let_def reg_memory_set)

lemma reg_mem_read: "mem_read a s = Inr (v, s') \<Longrightarrow> reg s' = reg s"
  unfolding mem_read_def Let_def
  by (auto simp add: bind_r_Inr_iff dest!: reg_memory_set reg_getch split: if_splits)

lemma reg_sys_stdout_write: "sys_stdout_write c s = Inr s' \<Longrightarrow> reg s' = reg s"
  by (auto simp add: sys_stdout_write_def split: if_splits)

lemma reg_vsys_stdout_write: "vsys_stdout_write c s = Inr s' \<Longrightarrow> reg s' = reg s"
  by (auto simp add: vsys_stdout_write_def bind_r_Inr_iff dest!: reg_sys_stdout_write)

lemma reg_print_py: "print_py x s = Inr s' \<Longrightarrow> reg s' = reg s"
  by (auto simp add: print_py_def bind_r_Inr_iff dest!: reg_sys_stdout_write)

lemma reg_trap_puts_loop: "trap_puts_loop is s = Inr s' \<Longrightarrow> reg s' = reg s"
  by (induction "is" arbitrary: s)
     (auto split: sum.splits if_splits dest!: reg_vsys_stdout_write)

lemma reg_trap_putsp_loop: "trap_putsp_loop is s = Inr s' \<Longrightarrow> reg s' = reg s"
  by (induction "is" arbitrary: s)
     (auto simp add: Let_def split: sum.splits if_splits dest!: reg_vsys_stdout_write)

lemmas inv_intros = reg_inv_reg_set reg_inv_update_flags

lemma inv_mem_read: "mem_read a s = Inr (v, s') \<Longrightarrow> reg_inv s \<Longrightarrow> reg_inv s'"
  by (auto dest: reg_mem_read intro: reg_inv_reg_eq)

lemma inv_mem_write: "mem_write a v s = Inr s' \<Longrightarrow> reg_inv s \<Longrightarrow> reg_inv s'"
  by (auto dest: reg_mem_write intro: reg_inv_reg_eq)

lemma inv_add: "add instr s = Inr s' \<Longrightarrow> reg_inv s \<Longrightarrow> reg_inv s'"
  unfolding add_def Let_def
  by (auto simp add: bind_r_Inr_iff intro!: inv_intros split: if_splits)

lemma inv_and: "and_op instr s = Inr s' \<Longrightarrow> reg_inv s \<Longrightarrow> reg_inv s'"
  unfolding and_op_def Let_def
  by (auto simp add: bind_r_Inr_iff intro!: inv_intros split: if_splits)

lemma inv_not: "not_op instr s = Inr s' \<Longrightarrow> reg_inv s \<Longrightarrow> reg_inv s'"
  unfolding not_op_def Let_def
  by (auto simp add: bind_r_Inr_iff intro!: inv_intros split: if_splits)

lemma inv_br: "br instr s = Inr s' \<Longrightarrow> reg_inv s \<Longrightarrow> reg_inv s'"
  unfolding br_def Let_def
  by (auto simp add: bind_r_Inr_iff intro!: inv_intros split: if_splits)

lemma inv_jmp: "jmp instr s = Inr s' \<Longrightarrow> reg_inv s \<Longrightarrow> reg_inv s'"
  unfolding jmp_def Let_def
  by (auto simp add: bind_r_Inr_iff reg_inv_def reg_set_def split: if_splits)

lemma inv_jsr: "jsr instr s = Inr s' \<Longrightarrow> reg_inv s \<Longrightarrow> reg_inv s'"
  unfolding jsr_def Let_def
  by (auto simp add: bind_r_Inr_iff intro!: inv_intros split: if_splits)

lemma inv_ld: "ld instr s = Inr s' \<Longrightarrow> reg_inv s \<Longrightarrow> reg_inv s'"
  unfolding ld_def Let_def
  by (auto simp add: bind_r_Inr_iff intro!: inv_intros dest: inv_mem_read split: if_splits)

lemma inv_ldi: "ldi instr s = Inr s' \<Longrightarrow> reg_inv s \<Longrightarrow> reg_inv s'"
  unfolding ldi_def Let_def
  by (auto simp add: bind_r_Inr_iff intro!: inv_intros dest: inv_mem_read split: if_splits)

lemma inv_ldr: "ldr instr s = Inr s' \<Longrightarrow> reg_inv s \<Longrightarrow> reg_inv s'"
  unfolding ldr_def Let_def
  by (auto simp add: bind_r_Inr_iff intro!: inv_intros dest: inv_mem_read split: if_splits)

lemma inv_lea: "lea instr s = Inr s' \<Longrightarrow> reg_inv s \<Longrightarrow> reg_inv s'"
  unfolding lea_def Let_def
  by (auto simp add: bind_r_Inr_iff reg_inv_def reg_set_def update_flags_def split: if_splits option.splits)

lemma inv_st: "st instr s = Inr s' \<Longrightarrow> reg_inv s \<Longrightarrow> reg_inv s'"
  unfolding st_def Let_def
  by (auto simp add: bind_r_Inr_iff dest: inv_mem_write)

lemma inv_sti: "sti instr s = Inr s' \<Longrightarrow> reg_inv s \<Longrightarrow> reg_inv s'"
  unfolding sti_def Let_def
  by (auto simp add: bind_r_Inr_iff dest: inv_mem_write inv_mem_read)

lemma inv_str: "str_op instr s = Inr s' \<Longrightarrow> reg_inv s \<Longrightarrow> reg_inv s'"
  unfolding str_op_def Let_def
  by (auto simp add: bind_r_Inr_iff dest: inv_mem_write)


lemma inv_trap_getc: "trap_getc s = Inr s' \<Longrightarrow> reg_inv s \<Longrightarrow> reg_inv s'"
  unfolding trap_getc_def
  by (auto simp add: bind_r_Inr_iff intro!: reg_inv_reg_set dest!: reg_getch intro: reg_inv_reg_eq)

lemma inv_trap_out: "trap_out s = Inr s' \<Longrightarrow> reg_inv s \<Longrightarrow> reg_inv s'"
  unfolding trap_out_def Let_def
  by (auto simp add: bind_r_Inr_iff reg_inv_def vsys_stdout_flush_def
      dest!: reg_vsys_stdout_write)

lemma trap_in_fails: "trap_in s \<noteq> Inr s'"
  unfolding trap_in_def Let_def by (simp add: bind_r_Inr_iff)

lemma inv_trap_puts: "trap_puts s = Inr s' \<Longrightarrow> reg_inv s \<Longrightarrow> reg_inv s'"
  unfolding trap_puts_def
  by (auto simp add: bind_r_Inr_iff reg_inv_def vsys_stdout_flush_def dest!: reg_trap_puts_loop)

lemma inv_trap_putsp: "trap_putsp s = Inr s' \<Longrightarrow> reg_inv s \<Longrightarrow> reg_inv s'"
  unfolding trap_putsp_def
  by (auto simp add: bind_r_Inr_iff reg_inv_def vsys_stdout_flush_def dest!: reg_trap_putsp_loop)

lemma inv_trap_halt: "trap_halt s = Inr s' \<Longrightarrow> reg_inv s \<Longrightarrow> reg_inv s'"
  unfolding trap_halt_def
  by (auto simp add: bind_r_Inr_iff reg_inv_def dest!: reg_print_py)

lemma inv_trap: "trap instr s = Inr s' \<Longrightarrow> reg_inv s \<Longrightarrow> reg_inv s'"
  unfolding trap_def traps_def
  by (auto simp add: trap_in_fails split: option.splits if_splits
      dest: inv_trap_getc inv_trap_out inv_trap_puts inv_trap_putsp inv_trap_halt)

lemma inv_ops_get:
  "ops_get op = (name, h) \<Longrightarrow> h instr s = Inr s' \<Longrightarrow> reg_inv s \<Longrightarrow> reg_inv s'"
  unfolding ops_get_def ops_def
  by (auto simp add: bad_opcode_def split: option.splits if_splits
      dest: inv_add inv_and inv_not inv_br inv_jmp inv_jsr inv_ld inv_ldi inv_ldr inv_lea
        inv_st inv_sti inv_str inv_trap)

lemma inv_cycle:
  assumes "cycle s = Inr (ev, s')" and "reg_inv s"
  shows "reg_inv s' \<and> 0 \<le> ev_PC ev \<and> ev_PC ev < 65536"
proof -
  from assms(1) obtain pc instr s1 pc1 where
    rd: "mem_read pc s = Inr (instr, s1)" and
    rest: "(case ops_get (drop_bit 12 instr) of (name, h) \<Rightarrow>
             bind_r (h instr (reg_set R_PC (pc1 + 1) s1)) (\<lambda>s3.
             bind_r (reg_get s3 R_PC) (\<lambda>pc3.
             Inr (\<lparr>ev_PC = pc3, ev_command = command_buffer s3, ev_op_name = py name,
                   ev_op_code = Some (drop_bit 12 instr),
                   ev_output_buffer = Some (output_buffer s3), ev_memory = memory s3\<rparr>, s3))))
           = Inr (ev, s')"
    unfolding cycle_def Let_def
    by (auto simp add: bind_r_Inr_iff)
  obtain name h where og: "ops_get (drop_bit 12 instr) = (name, h)"
    by (cases "ops_get (drop_bit 12 instr)")
  from rest og obtain s3 pc3 where
    h: "h instr (reg_set R_PC (pc1 + 1) s1) = Inr s3" and
    pc3: "reg_get s3 R_PC = Inr pc3" and
    ev: "ev_PC ev = pc3" and s': "s' = s3"
    by (auto simp add: bind_r_Inr_iff)
  have "reg_inv s1" using rd assms(2) by (rule inv_mem_read)
  then have "reg_inv (reg_set R_PC (pc1 + 1) s1)" by (rule reg_inv_reg_set)
  with og h have inv3: "reg_inv s3" by (rule inv_ops_get)
  moreover from pc3 have "reg s3 R_PC = Some pc3"
    by (simp add: reg_get_def split: option.splits)
  ultimately show ?thesis using ev s' by (auto simp add: reg_inv_def)
qed

lemma inv_resume: "reg_inv s \<Longrightarrow> reg_inv (resume yp s)"
  by (cases yp) (simp_all add: resume_def reg_inv_def)

lemma inv_gen_pull:
  "gen_pull n yp s = (evs, out) \<Longrightarrow> reg_inv s \<Longrightarrow>
     outcome_inv out \<and> (\<forall>ev\<in>set evs. 0 \<le> ev_PC ev \<and> ev_PC ev < 65536)"
proof (induction n arbitrary: yp s evs out)
  case 0
  then show ?case by (auto simp add: outcome_inv_def)
next
  case (Suc n)
  let ?s1 = "resume yp s"
  have inv1: "reg_inv ?s1" using Suc.prems(2) by (rule inv_resume)
  show ?case
  proof (cases "is_running ?s1 = 0")
    case True
    with Suc.prems(1) inv1 show ?thesis by (auto simp add: outcome_inv_def)
  next
    case False
    show ?thesis
    proof (cases "cycle ?s1")
      case (Inl e)
      with False Suc.prems(1) show ?thesis by (auto simp add: outcome_inv_def)
    next
      case (Inr p)
      obtain ev s2 where p: "p = (ev, s2)" by (cases p)
      obtain evs' out' where rest: "gen_pull n AtLoopYield s2 = (evs', out')"
        by (cases "gen_pull n AtLoopYield s2")
      from Inr p inv1 have c: "reg_inv s2 \<and> 0 \<le> ev_PC ev \<and> ev_PC ev < 65536"
        by (auto dest: inv_cycle)
      with Suc.IH [OF rest] have "outcome_inv out' \<and> (\<forall>ev\<in>set evs'. 0 \<le> ev_PC ev \<and> ev_PC ev < 65536)"
        by simp
      moreover from Suc.prems(1) False Inr p rest have "evs = ev # evs'" "out = out'"
        by simp_all
      ultimately show ?thesis using c by simp
    qed
  qed
qed

lemma inv_main_generator:
  assumes "main_generator n f s = (evs, out)" and "reg_inv s"
  shows "outcome_inv out \<and> (\<forall>ev\<in>set evs. 0 \<le> ev_PC ev \<and> ev_PC ev < 65536)"
proof (cases n)
  case 0
  with assms show ?thesis by (auto simp add: outcome_inv_def)
next
  case (Suc k)
  show ?thesis
  proof (cases "read_image_file f")
    case (Inl e)
    with Suc assms(1) show ?thesis by (auto simp add: outcome_inv_def)
  next
    case (Inr m)
    let ?s1 = "reg_set R_PC PC_START (s\<lparr>is_running := 1, memory := Some m\<rparr>)"
    have "reg_inv (s\<lparr>is_running := 1, memory := Some m\<rparr>)"
      using assms(2) by (simp add: reg_inv_def)
    then have inv1: "reg_inv ?s1" by (rule reg_inv_reg_set)
    have pc: "reg_get ?s1 R_PC = Inr PC_START" by (simp add: reg_get_def reg_set_def)
    obtain evs' out' where rest: "gen_pull k AtOrigYield ?s1 = (evs', out')"
      by (cases "gen_pull k AtOrigYield ?s1")
    from inv_gen_pull [OF rest inv1]
    have "outcome_inv out' \<and> (\<forall>ev\<in>set evs'. 0 \<le> ev_PC ev \<and> ev_PC ev < 65536)" .
    moreover from assms(1) Suc Inr pc rest
    have "out = out'" "\<exists>ev0. ev_PC ev0 = PC_START \<and> evs = ev0 # evs'"
      by (auto simp add: Let_def)
    ultimately show ?thesis by auto
  qed
qed

lemma reg_inv_init: "reg_inv (vm_init ks w r)"
  by (simp add: reg_inv_def vm_init_def reg_init_def split: if_splits)



text \<open>
  C1. A write of \<open>v\<close> to register \<open>r\<close> stores \<open>v mod 65536\<close>, a value from 0 to 65535;
  writing \<open>65536 + k\<close> for a 16-bit \<open>k\<close> stores \<open>k\<close> and writing \<open>- 1\<close> stores 65535.
  The registers of the freshly imported module hold 16-bit values, and when they do in
  a state, they still do after a register write, after an instruction cycle, and in
  every event and final state of a run of the generator.
\<close>

theorem register_writes_reduced:
  assumes "reg_inv s" and "main_generator n f s = (evs, out)"
  shows "reg (reg_set r v s) r = Some (v mod 65536)
       \<and> 0 \<le> v mod 65536 \<and> v mod 65536 < 65536
       \<and> (0 \<le> k \<and> k < 65536 \<longrightarrow> reg (reg_set r (65536 + k) s) r = Some k)
       \<and> reg (reg_set r (- 1) s) r = Some 65535
       \<and> reg_inv (vm_init ks w rd)
       \<and> reg_inv (reg_set r v s)
       \<and> (\<forall>ev s'. cycle s = Inr (ev, s') \<longrightarrow> reg_inv s')
       \<and> outcome_inv out
       \<and> (\<forall>ev\<in>set evs. 0 \<le> ev_PC ev \<and> ev_PC ev < 65536)"
proof -
  have "reg (reg_set r v s) r = Some (v mod 65536)" for v
    by (simp add: reg_set_def)
  moreover have "0 \<le> k \<and> k < 65536 \<longrightarrow> (65536 + k) mod 65536 = k" by simp
  moreover have "(- 1 :: int) mod 65536 = 65535" by simp
  moreover have "\<forall>ev s'. cycle s = Inr (ev, s') \<longrightarrow> reg_inv s'"
    using assms(1) by (auto dest: inv_cycle)
  moreover note inv_main_generator [OF assms(2,1)] reg_inv_init [of ks w rd]
    reg_inv_reg_set [OF assms(1), of r v]
  ultimately show ?thesis by simp
qed

theorem register_writes_reduced_witness:
  "reg_inv (vm_init [] True False)
   \<and> reg (reg_set 3 (65536 + 5) (vm_init [] True False)) 3 = Some 5
   \<and> reg (reg_set 3 (- 1) (vm_init [] True False)) 3 = Some 65535
   \<and> outcome_inv (snd (main_generator (Suc (Suc (Suc 0))) [0x30, 0x00, 0xF0, 0x25]
                         (vm_init [] True False)))
   \<and> map ev_PC (fst (main_generator (Suc (Suc (Suc 0))) [0x30, 0x00, 0xF0, 0x25]
                       (vm_init [] True False))) = [0x3000, 0x3001]"
proof -
  let ?s = "vm_init [] True False"
  let ?run = "main_generator (Suc (Suc (Suc 0))) [0x30, 0x00, 0xF0, 0x25] ?s"
  have inv: "reg_inv ?s" by (rule reg_inv_init)
  have run: "?run = (fst ?run, snd ?run)" by simp
  have img: "read_image_file [0x30, 0x00, 0xF0, 0x25] =
               Inr (replicate 12288 0 @ [0xF025] @ replicate 53247 0)"
    by (simp add: read_image_file_def from_bytes_big_def frombytes_def byteswap_def bind_r_def
        Let_def)
  have pcs: "map ev_PC (fst ?run) = [0x3000, 0x3001]"
    by (simp add: img Let_def reg_get_def reg_set_def vm_init_def reg_init_def resume_def
        cycle_def mem_read_def memory_get_def array_index_def bind_r_def nth_append ops_get_def
        ops_def trap_def traps_def trap_halt_def print_py_def sys_stdout_write_def
        utf8_encodable_def py_def)
  from register_writes_reduced [OF inv run, of 3 "- 1" 5 "[]" True False] inv pcs
  show ?thesis by simp
qed

subsection \<open>The PUTS trap\<close>

lemma memory_get_in_range:
  assumes "memory s = Some m" and "0 \<le> i" and "i < int (length m)"
  shows "memory_get s i = Inr (uint (m ! nat i))"
  using assms by (simp add: memory_get_def array_index_def bind_r_def Let_def)

lemma chr_py_cell: "chr_py (uint (w :: 16 word)) = Inr [unat w]"
proof -
  have "uint w < 2 ^ 16" using uint_bounded [of w] by simp
  then show ?thesis by (simp add: chr_py_def)
qed

lemma vsys_stdout_write_Nil: "vsys_stdout_write [] s = Inr s"
  by (simp add: vsys_stdout_write_def sys_stdout_write_def bind_r_def)

lemma vsys_stdout_write_Cons:
  "vsys_stdout_write (x # xs) s =
     (case vsys_stdout_write [x] s of Inl e \<Rightarrow> Inl e | Inr s1 \<Rightarrow> vsys_stdout_write xs s1)"
  by (simp add: vsys_stdout_write_def sys_stdout_write_def bind_r_def)

lemma memory_vsys_stdout_write: "vsys_stdout_write c s = Inr s' \<Longrightarrow> memory s' = memory s"
  by (auto simp add: vsys_stdout_write_def sys_stdout_write_def bind_r_def split: if_splits)

text \<open>The loop writes cell by cell what one write of the whole string writes, and
  fails where that write fails.\<close>

lemma trap_puts_loop_output:
  assumes "memory s = Some m" and "0 \<le> a"
  shows "trap_puts_loop [a..int (length m) - 1] s =
           vsys_stdout_write (map unat (takeWhile (\<lambda>w. w \<noteq> 0) (drop (nat a) m))) s"
  using assms
proof (induction "length m - nat a" arbitrary: a s)
  case 0
  then have "int (length m) - 1 < a" by simp
  then have "[a..int (length m) - 1] = []" by simp
  moreover from 0 have "drop (nat a) m = []" by simp
  ultimately show ?case by (simp add: vsys_stdout_write_Nil)
next
  case (Suc k)
  then have lt: "a < int (length m)" and ltn: "nat a < length m" by simp_all
  then have idx: "[a..int (length m) - 1] = a # [a + 1..int (length m) - 1]"
    by (simp add: upto_rec1)
  have dr: "drop (nat a) m = m ! nat a # drop (nat (a + 1)) m"
    using ltn Suc.prems(2) by (simp add: Cons_nth_drop_Suc nat_add_distrib)
  have get: "memory_get s a = Inr (uint (m ! nat a))"
    using Suc.prems lt by (simp add: memory_get_in_range)
  show ?case
  proof (cases "m ! nat a = 0")
    case True
    then show ?thesis by (simp add: idx dr get vsys_stdout_write_Nil)
  next
    case False
    have step: "vsys_stdout_write
                  (unat (m ! nat a) #
                   map unat (takeWhile (\<lambda>w. w \<noteq> 0) (drop (nat (a + 1)) m))) s =
                (case vsys_stdout_write [unat (m ! nat a)] s of
                   Inl e \<Rightarrow> Inl e
                 | Inr s1 \<Rightarrow>
                     vsys_stdout_write
                       (map unat (takeWhile (\<lambda>w. w \<noteq> 0) (drop (nat (a + 1)) m))) s1)"
      by (rule vsys_stdout_write_Cons)
    show ?thesis
    proof (cases "vsys_stdout_write [unat (m ! nat a)] s")
      case (Inl e)
      with False show ?thesis
        by (simp add: idx dr get chr_py_cell uint_0_iff step)
    next
      case (Inr s1)
      then have m1: "memory s1 = Some m"
        using Suc.prems(1) by (simp add: memory_vsys_stdout_write)
      have k: "k = length m - nat (a + 1)" using Suc.hyps(2) Suc.prems(2) by simp
      have "trap_puts_loop [a + 1..int (length m) - 1] s1 =
              vsys_stdout_write (map unat (takeWhile (\<lambda>w. w \<noteq> 0) (drop (nat (a + 1)) m))) s1"
        using Suc.hyps(1) [OF k m1] Suc.prems(2) by simp
      with False Inr show ?thesis
        by (simp add: idx dr get chr_py_cell uint_0_iff step)
    qed
  qed
qed

lemma trap_puts_eq:
  assumes "reg s R_R0 = Some a" and "0 \<le> a" and "memory s = Some m"
  shows "trap_puts s =
          bind_r (vsys_stdout_write (map unat (takeWhile (\<lambda>w. w \<noteq> 0) (drop (nat a) m))) s)
            (\<lambda>s1. Inr (vsys_stdout_flush
                   (s1\<lparr>command_buffer :=
                         py ''PUTS ; output a byte string ('' @ output_buffer s1 @ py '')''\<rparr>)))"
  using assms
  by (simp add: trap_puts_def reg_get_def memory_len_def bind_r_def trap_puts_loop_output)

text \<open>
  C10, as the code has it. From a state whose R0 holds an address \<open>a \<ge> 0\<close>, PUTS always
  returns or raises; it never loops. Take the cells from address \<open>a\<close> up to, and
  excluding, the first zero cell at or above \<open>a\<close>, or up to the last cell of the memory
  when there is no such cell. When the console stream can encode the character of each
  of these cells, PUTS returns without error, has appended exactly these characters to
  the output, without wrapping around, and has left memory and registers unchanged. When
  it cannot encode one of them, PUTS raises \<^verbatim>\<open>UnicodeEncodeError\<close>.
\<close>

theorem trap_puts_writes:
  assumes "reg s R_R0 = Some a" and "0 \<le> a" and "memory s = Some m"
  shows "if list_all (\<lambda>w. stdout_encodable s (unat w))
              (takeWhile (\<lambda>w. w \<noteq> 0) (drop (nat a) m))
         then \<exists>s'. trap_puts s = Inr s'
            \<and> output_buffer s' =
                output_buffer s @ map unat (takeWhile (\<lambda>w. w \<noteq> 0) (drop (nat a) m))
            \<and> console s' = console s @ map unat (takeWhile (\<lambda>w. w \<noteq> 0) (drop (nat a) m))
            \<and> ((\<forall>w\<in>set (drop (nat a) m). w \<noteq> 0) \<longrightarrow>
                 output_buffer s' = output_buffer s @ map unat (drop (nat a) m))
            \<and> memory s' = memory s \<and> reg s' = reg s
         else trap_puts s = Inl UnicodeEncodeError"
proof -
  have all: "(\<forall>w\<in>set (drop (nat a) m). w \<noteq> 0) \<longrightarrow>
          takeWhile (\<lambda>w. w \<noteq> 0) (drop (nat a) m) = drop (nat a) m"
    by (simp add: takeWhile_eq_all_conv)
  have enc: "list_all (stdout_encodable s) (map unat ws) =
               list_all (\<lambda>w. stdout_encodable s (unat w)) ws" for ws :: "16 word list"
    by (simp add: list_all_iff)
  show ?thesis
    unfolding trap_puts_eq [OF assms]
    using all
    by (simp add: vsys_stdout_write_def sys_stdout_write_def bind_r_def vsys_stdout_flush_def enc)
qed

theorem trap_puts_writes_witness:
  "(\<exists>s'. trap_puts ((reg_set R_R0 0x3000 (vm_init [] True False))
            \<lparr>memory := Some (replicate 12288 0 @ [0x48, 0x49, 0, 0x4A] @ replicate 53244 0)\<rparr>)
          = Inr s'
        \<and> output_buffer s' = py ''HI'')
   \<and> trap_puts ((reg_set R_R0 0x3000 (vm_init [] True False))
            \<lparr>memory := Some (replicate 12288 0 @ [0x48, 0xDC00, 0] @ replicate 53245 0)\<rparr>)
       = Inl UnicodeEncodeError"
  using trap_puts_writes [of "(reg_set R_R0 0x3000 (vm_init [] True False))
            \<lparr>memory := Some (replicate 12288 0 @ [0x48, 0x49, 0, 0x4A] @ replicate 53244 0)\<rparr>"
      "0x3000" "replicate 12288 0 @ [0x48, 0x49, 0, 0x4A] @ replicate 53244 0"]
    trap_puts_writes [of "(reg_set R_R0 0x3000 (vm_init [] True False))
            \<lparr>memory := Some (replicate 12288 0 @ [0x48, 0xDC00, 0] @ replicate 53245 0)\<rparr>"
      "0x3000" "replicate 12288 0 @ [0x48, 0xDC00, 0] @ replicate 53245 0"]
  by (auto simp add: reg_set_def vm_init_def py_def utf8_encodable_def)

text \<open>A surrogate in the string: on the UTF-8 console the write of it raises.\<close>

theorem trap_puts_surrogate:
  "trap_puts ((reg_set R_R0 0x3000 (vm_init [] True False))
      \<lparr>memory := Some (replicate 12288 0 @ [0x41, 0xD800, 0x42, 0] @ replicate 53244 0)\<rparr>)
     = Inl UnicodeEncodeError"
proof -
  let ?m = "replicate 12288 0 @ [0x41, 0xD800, 0x42, 0] @ replicate 53244 (0 :: 16 word)"
  let ?s = "(reg_set R_R0 0x3000 (vm_init [] True False))\<lparr>memory := Some ?m\<rparr>"
  have r0: "reg ?s R_R0 = Some 0x3000" by (simp add: reg_set_def)
  have mem: "memory ?s = Some ?m" by simp
  have cells: "takeWhile (\<lambda>w. w \<noteq> 0) (drop (nat 0x3000) ?m) = [0x41, 0xD800, 0x42]"
    by simp
  have "trap_puts ?s =
          bind_r (vsys_stdout_write
                    (map unat (takeWhile (\<lambda>w. w \<noteq> 0) (drop (nat 0x3000) ?m))) ?s)
            (\<lambda>s1. Inr (vsys_stdout_flush
                   (s1\<lparr>command_buffer :=
                         py ''PUTS ; output a byte string ('' @ output_buffer s1 @ py '')''\<rparr>)))"
    using r0 _ mem by (rule trap_puts_eq) simp
  also have "\<dots> = Inl UnicodeEncodeError"
    unfolding cells
    by (simp add: vsys_stdout_write_def sys_stdout_write_def bind_r_def reg_set_def vm_init_def
        utf8_encodable_def)
  finally show ?thesis .
qed

subsection \<open>The image loader\<close>

lemma swap_item:
  fixes b0 b1 :: byte
  defines "w \<equiv> (word_of_int (uint b0 + 256 * uint b1) :: 16 word)"
  shows "push_bit 8 w OR drop_bit 8 w = word_of_int (256 * uint b0 + uint b1)"
proof -
  have tb: "take_bit 8 (uint b) = uint b" for b :: byte
    using uint_bounded [of b] by (simp add: take_bit_int_eq_self)
  have l: "uint b0 + 256 * uint b1 = concat_bit 8 (uint b0) (uint b1)"
    by (simp add: concat_bit_eq push_bit_eq_mult tb)
  have r: "256 * uint b0 + uint b1 = concat_bit 8 (uint b1) (uint b0)"
    by (simp add: concat_bit_eq push_bit_eq_mult tb)
  show ?thesis
    unfolding w_def l r
  proof (rule bit_word_eqI)
    fix n assume "n < LENGTH(16)"
    then have n: "n < 16" by simp
    have b0: "\<And>k. bit b0 k \<Longrightarrow> k < 8" and b1: "\<And>k. bit b1 k \<Longrightarrow> k < 8"
      by (auto dest: bit_imp_le_length)
    show "bit (push_bit 8 (word_of_int (concat_bit 8 (uint b0) (uint b1)) :: 16 word)
               OR drop_bit 8 (word_of_int (concat_bit 8 (uint b0) (uint b1)))) n
        = bit (word_of_int (concat_bit 8 (uint b1) (uint b0)) :: 16 word) n"
      using n b0 b1
      by (auto simp add: bit_or_iff bit_push_bit_iff bit_drop_bit_eq bit_word_of_int_iff
          bit_concat_bit_iff bit_uint_iff)
  qed
qed


lemma byteswap_items: "byteswap (items_H bs) = be_words bs"
  by (induction bs rule: items_H.induct)
     (simp_all only: items_H.simps be_words.simps byteswap_def list.map swap_item)

lemma byteswap_zeros: "byteswap (replicate n 0 @ ws) = replicate n 0 @ byteswap ws"
  by (simp add: byteswap_def)

lemma length_be_words: "length (be_words bs) = length bs div 2"
  by (induction bs rule: be_words.induct) simp_all

lemma origin_bounds: "0 \<le> from_bytes_big (take 2 f) \<and> from_bytes_big (take 2 f) < 65536"
proof (cases f)
  case Nil
  then show ?thesis by (simp add: from_bytes_big_def)
next
  case (Cons b0 f')
  show ?thesis
  proof (cases f')
    case Nil
    with Cons show ?thesis using uint_bounded [of b0] by (simp add: from_bytes_big_def)
  next
    case (Cons b1 f'')
    with \<open>f = b0 # f'\<close> show ?thesis
      using uint_bounded [of b0] uint_bounded [of b1] by (simp add: from_bytes_big_def)
  qed
qed

lemma read_image_file_eq:
  "read_image_file f =
     (let origin = from_bytes_big (take 2 f);
          payload = take (nat (65536 - origin)) (drop 2 f)
      in if odd (length payload) then Inl ValueError
         else Inr (replicate (nat origin) 0 @ be_words payload
                   @ replicate (65536 - nat origin - length payload div 2) 0))"
proof -
  have "nat (65536 - int (nat origin + n)) = 65536 - nat origin - n" for origin :: int and n :: nat
    by linarith
  then show ?thesis
    by (simp add: read_image_file_def frombytes_def bind_r_def Let_def byteswap_zeros
        byteswap_items length_be_words odd_iff_mod_2_eq_one)
qed

lemma length_loaded:
  assumes "read_image_file f = Inr m"
  shows "length m = 65536"
proof -
  define origin where "origin = from_bytes_big (take 2 f)"
  define payload where "payload = take (nat (65536 - origin)) (drop 2 f)"
  have o: "0 \<le> origin" "origin < 65536" using origin_bounds [of f] by (simp_all add: origin_def)
  have "length payload \<le> nat (65536 - origin)" by (simp add: payload_def)
  then have "nat origin + length payload div 2 \<le> 65536" using o by linarith
  moreover from assms have "m = replicate (nat origin) 0 @ be_words payload
                   @ replicate (65536 - nat origin - length payload div 2) 0"
    by (simp add: read_image_file_eq Let_def origin_def payload_def split: if_splits)
  ultimately show ?thesis by (simp add: length_be_words)
qed

lemma beyond_capacity_not_read:
  "read_image_file (take (2 + 2 * nat (65536 - from_bytes_big (take 2 f))) f) = read_image_file f"
proof -
  let ?k = "nat (65536 - from_bytes_big (take 2 f))"
  have "take 2 (take (2 + 2 * ?k) f) = take 2 f" by (simp add: min_def)
  moreover have "take ?k (drop 2 (take (2 + 2 * ?k) f)) = take ?k (drop 2 f)"
    by (simp add: drop_take min_def)
  ultimately show ?thesis by (simp add: read_image_file_def)
qed

text \<open>
  C7, as the code has it. The origin is the big-endian value of the first two bytes.
  For a payload (the bytes after them) of at most \<open>65536 - origin\<close> bytes: when its
  length is even, the loader returns the memory of 65536 cells that is zero below the
  origin, holds the payload as big-endian words from the origin on, and is zero above
  them; when its length is odd, the stream being cut in the middle of a word, the
  loader fails with \<^verbatim>\<open>ValueError\<close>. Every memory it returns has 65536 cells, and
  the bytes beyond the capacity of \<open>65536 - origin\<close> words are not read.
\<close>

theorem read_image_file_loads:
  assumes "origin = from_bytes_big (take 2 f)"
  shows "(length (drop 2 f) \<le> nat (65536 - origin) \<longrightarrow>
           (if even (length (drop 2 f))
            then read_image_file f =
                   Inr (replicate (nat origin) 0 @ be_words (drop 2 f)
                        @ replicate (65536 - nat origin - length (drop 2 f) div 2) 0)
            else read_image_file f = Inl ValueError))
       \<and> (\<forall>m. read_image_file f = Inr m \<longrightarrow> length m = 65536)
       \<and> read_image_file (take (2 + 2 * nat (65536 - origin)) f) = read_image_file f"
proof -
  have "if even (length (drop 2 f))
          then read_image_file f =
                 Inr (replicate (nat origin) 0 @ be_words (drop 2 f)
                      @ replicate (65536 - nat origin - length (drop 2 f) div 2) 0)
          else read_image_file f = Inl ValueError"
    if "length (drop 2 f) \<le> nat (65536 - origin)"
  proof -
    from that have "take (nat (65536 - origin)) (drop 2 f) = drop 2 f" by simp
    then show ?thesis
      unfolding read_image_file_eq [of f] Let_def assms [symmetric] by simp
  qed
  moreover have "\<forall>m. read_image_file f = Inr m \<longrightarrow> length m = 65536"
    by (simp add: length_loaded)
  moreover have "read_image_file (take (2 + 2 * nat (65536 - origin)) f) = read_image_file f"
    unfolding assms by (rule beyond_capacity_not_read)
  ultimately show ?thesis by blast
qed

theorem read_image_file_loads_witness:
  "read_image_file [0x30, 0x00, 0xF0, 0x25] =
     Inr (replicate 12288 0 @ [0xF025] @ replicate 53247 0)
   \<and> read_image_file [0x30, 0x00, 0xF0, 0x25, 0x12] = Inl ValueError"
  using read_image_file_loads [of "0x3000" "[0x30, 0x00, 0xF0, 0x25]"]
    read_image_file_loads [of "0x3000" "[0x30, 0x00, 0xF0, 0x25, 0x12]"]
  by (simp add: from_bytes_big_def)

text \<open>A stream cut in the middle of its only word: the loader raises.\<close>

theorem read_image_file_truncated:
  "read_image_file [0x30, 0x00, 0xF0] = Inl ValueError"
  by (simp add: read_image_file_def from_bytes_big_def frombytes_def bind_r_def)

subsection \<open>Illegal instructions\<close>

lemma ops_unregistered: "ops 13 = None \<and> ops 8 = None"
  by (simp add: ops_def)

lemma traps_unregistered: "v < 0x20 \<or> 0x25 < v \<Longrightarrow> traps v = None"
  by (auto simp add: traps_def)

lemma cycle_fetch:
  assumes "reg s R_PC = Some pc" and "mem_read pc s = Inr (instr, s1)"
  shows "cycle s =
     (case ops_get (drop_bit 12 instr) of (name, handler) \<Rightarrow>
        bind_r (handler instr (reg_set R_PC (pc + 1) s1)) (\<lambda>s3.
        bind_r (reg_get s3 R_PC) (\<lambda>pc3.
        Inr (\<lparr>ev_PC = pc3, ev_command = command_buffer s3, ev_op_name = py name,
              ev_op_code = Some (drop_bit 12 instr), ev_output_buffer = Some (output_buffer s3),
              ev_memory = memory s3\<rparr>, s3))))"
proof -
  have "reg s1 = reg s" using assms(2) by (rule reg_mem_read)
  then have "reg_get s1 R_PC = Inr pc" using assms(1) by (simp add: reg_get_def)
  then show ?thesis using assms by (simp add: cycle_def reg_get_def bind_r_def Let_def)
qed

lemmas run_simps = Let_def reg_get_def reg_set_def vm_init_def reg_init_def resume_def
        cycle_def mem_read_def memory_get_def array_index_def bind_r_def nth_append ops_get_def
        ops_def print_py_def vsys_stdout_write_def sys_stdout_write_def utf8_encodable_def py_def

text \<open>
  C6. Take a pull of the generator in which the machine is running and the fetch at PC
  returns the word \<open>instr\<close>. If the opcode of \<open>instr\<close> has no handler in \<open>ops\<close>, as
  13 and 8 have none, the cycle raises the bad-opcode exception; if the opcode is 15 and
  the vector of \<open>instr\<close> has no handler in \<open>traps\<close>, as no vector outside 0x20..0x25
  has one, the cycle raises \<^verbatim>\<open>TypeError\<close>. In both cases the generator ends with
  that fault and yields no event, for this pull and however many pulls follow.
\<close>

theorem illegal_instruction_faults:
  assumes "is_running (resume yp s) \<noteq> 0"
      and "reg (resume yp s) R_PC = Some pc"
      and "mem_read pc (resume yp s) = Inr (instr, s1)"
  shows "(ops (drop_bit 12 instr) = None \<longrightarrow>
            cycle (resume yp s) = Inl (Exception_bad_opcode instr)
            \<and> gen_pull (Suc n) yp s = ([], Faulted (Exception_bad_opcode instr)))
       \<and> (drop_bit 12 instr = 15 \<and> traps (instr AND 0xFF) = None \<longrightarrow>
            cycle (resume yp s) = Inl TypeError
            \<and> gen_pull (Suc n) yp s = ([], Faulted TypeError))
       \<and> ops 13 = None \<and> ops 8 = None
       \<and> (\<forall>v. v < 0x20 \<or> 0x25 < v \<longrightarrow> traps v = None)"
proof -
  have bad: "cycle (resume yp s) = Inl (Exception_bad_opcode instr)"
    if "ops (drop_bit 12 instr) = None"
    using that by (simp add: cycle_fetch [OF assms(2,3)] ops_get_def bad_opcode_def bind_r_def)
  have "ops_get 15 = (''trap'', trap)" by (simp add: ops_get_def ops_def)
  then have tr: "cycle (resume yp s) = Inl TypeError"
    if "drop_bit 12 instr = 15" "traps (instr AND 0xFF) = None"
    using that by (simp add: cycle_fetch [OF assms(2,3)] trap_def bind_r_def)
  show ?thesis
    using assms(1) bad tr ops_unregistered traps_unregistered by (simp add: Let_def)
qed

theorem illegal_instruction_faults_witness:
  "gen_pull (Suc (Suc 0)) AtOrigYield
     ((reg_set R_PC PC_START (vm_init [] True False))
        \<lparr>memory := Some (replicate 12288 0 @ [0xD000] @ replicate 53247 0)\<rparr>)
     = ([], Faulted (Exception_bad_opcode 0xD000))
   \<and> gen_pull (Suc (Suc 0)) AtOrigYield
     ((reg_set R_PC PC_START (vm_init [] True False))
        \<lparr>memory := Some (replicate 12288 0 @ [0xF026] @ replicate 53247 0)\<rparr>)
     = ([], Faulted TypeError)"
  using illegal_instruction_faults [of AtOrigYield
      "(reg_set R_PC PC_START (vm_init [] True False))
        \<lparr>memory := Some (replicate 12288 0 @ [0xD000] @ replicate 53247 0)\<rparr>"
      "0x3000" "0xD000"
      "(reg_set R_PC PC_START (vm_init [] True False))
        \<lparr>memory := Some (replicate 12288 0 @ [0xD000] @ replicate 53247 0)\<rparr>" "Suc 0"]
    illegal_instruction_faults [of AtOrigYield
      "(reg_set R_PC PC_START (vm_init [] True False))
        \<lparr>memory := Some (replicate 12288 0 @ [0xF026] @ replicate 53247 0)\<rparr>"
      "0x3000" "0xF026"
      "(reg_set R_PC PC_START (vm_init [] True False))
        \<lparr>memory := Some (replicate 12288 0 @ [0xF026] @ replicate 53247 0)\<rparr>" "Suc 0"]
  by (simp add: resume_def reg_set_def vm_init_def mem_read_def memory_get_def array_index_def
      bind_r_def nth_append ops_def traps_def)

subsection \<open>The keyboard status register\<close>

text \<open>
  What holds of \<open>mem_read\<close>: a read of any other address returns the cell and changes
  nothing, and a read of 0xFE00 with a character pending on a writable device sets the
  high bit of the status cell, stores the character's code at 0xFE02 and returns the
  status cell.
\<close>

lemma mem_read_ordinary:
  assumes "memory s = Some m" and "length m = 65536" and "a mod 65536 \<noteq> Mr_KBSR"
  shows "mem_read a s = Inr (uint (m ! nat (a mod 65536)), s)"
  using assms
  by (simp add: mem_read_def memory_get_def array_index_mod bind_r_def Let_def)

lemma mem_read_status_pending:
  assumes "memory s = Some m" and "length m = 65536" and "stdin_writable s"
      and "keys s = k # ks" and "int k < 65536"
  shows "mem_read Mr_KBSR s =
           Inr (0x8000, s\<lparr>memory := Some (m[0xFE00 := 0x8000, 0xFE02 := word_of_int (int k)]),
                          keys := ks\<rparr>)"
  using assms
  by (simp add: mem_read_def check_key_def select_py_def memory_set_def memory_get_def
      array_index_def getch_def bind_r_def Let_def)

text \<open>
  C5, at two inputs. \<open>check_key\<close> asks \<^verbatim>\<open>select\<close> whether the input device is ready
  for writing, not whether a character is pending. With no character pending and a
  writable device, a read of address 0xFE00 waits in \<open>getch\<close> and does not return 0.
  With the character 65 pending and a device that is not writable, the read returns 0
  and leaves the character where it was.
\<close>

theorem keyboard_poll_blocks:
  "mem_read Mr_KBSR ((vm_init [] True False)\<lparr>memory := Some (replicate 65536 0)\<rparr>)
     = Inl BlockedOnInput
   \<and> mem_read Mr_KBSR ((vm_init [65] False False)\<lparr>memory := Some (replicate 65536 0)\<rparr>)
     = Inr (0, (vm_init [65] False False)\<lparr>memory := Some ((replicate 65536 0)[0xFE00 := 0])\<rparr>)"
  by (simp add: mem_read_def check_key_def select_py_def memory_set_def memory_get_def
      array_index_def getch_def bind_r_def vm_init_def)

subsection \<open>The IN trap\<close>

text \<open>
  C8, at an input. With the character 65 pending, the IN trap raises after its prompt:
  \<^verbatim>\<open>UnsupportedOperation\<close> from the read of the output stream, or
  \<^verbatim>\<open>TypeError\<close> from the register write of \<^verbatim>\<open>None\<close> when that stream can be
  read. No state with the character in R0 is returned, and a run of the image
  \<^verbatim>\<open>.ORIG x3000; TRAP x23\<close> ends with the fault.
\<close>

theorem trap_in_raises:
  "trap_in (vm_init [65] True False) = Inl UnsupportedOperation
   \<and> trap_in (vm_init [65] True True) = Inl TypeError
   \<and> snd (main_generator (Suc (Suc 0)) [0x30, 0x00, 0xF0, 0x23] (vm_init [65] True False))
       = Faulted UnsupportedOperation"
proof -
  have img: "read_image_file [0x30, 0x00, 0xF0, 0x23] =
               Inr (replicate 12288 0 @ [0xF023] @ replicate 53247 0)"
    by (simp add: read_image_file_def from_bytes_big_def frombytes_def byteswap_def bind_r_def
        Let_def)
  have "trap_in s = Inl (if stdout_readable s then TypeError else UnsupportedOperation)"
    if "stdout_encodable s = utf8_encodable" for s
    using that
    by (simp add: trap_in_def vsys_stdout_read_def bind_r_def Let_def vsys_stdout_write_def
        sys_stdout_write_def vsys_stdout_flush_def utf8_encodable_def py_def)
  then show ?thesis
    by (simp add: img run_simps trap_def traps_def)
qed

subsection \<open>Two runs in one process\<close>

text \<open>
  C9, at an input. The image \<^verbatim>\<open>.ORIG x3000; BRnzp +1; ADD R0,R0,#1; HALT\<close> is run
  twice with no input, the second run starting from the module state the first run
  left, as a second call of \<open>main_generator\<close> in the same process does. The first run
  yields events with PC 0x3000, 0x3001, 0x3002, 0x3003: the branch is not taken, COND
  being 0. The second yields 0x3000, 0x3002, 0x3003: COND still holds the POS of the
  first run, and the branch is taken.
\<close>

theorem reruns_differ:
  "map ev_PC (fst (main_generator (Suc (Suc (Suc (Suc (Suc 0)))))
                    [0x30, 0x00, 0x0E, 0x01, 0x10, 0x21, 0xF0, 0x25] (vm_init [] True False)))
     = [0x3000, 0x3001, 0x3002, 0x3003]
   \<and> (case snd (main_generator (Suc (Suc (Suc (Suc (Suc 0)))))
                  [0x30, 0x00, 0x0E, 0x01, 0x10, 0x21, 0xF0, 0x25] (vm_init [] True False)) of
        Finished s1 \<Rightarrow>
          keys s1 = [] \<and>
          map ev_PC (fst (main_generator (Suc (Suc (Suc (Suc (Suc 0)))))
                       [0x30, 0x00, 0x0E, 0x01, 0x10, 0x21, 0xF0, 0x25] s1))
            = [0x3000, 0x3002, 0x3003]
      | _ \<Rightarrow> False)"
proof -
  have img: "read_image_file [0x30, 0x00, 0x0E, 0x01, 0x10, 0x21, 0xF0, 0x25] =
               Inr (replicate 12288 0 @ [0x0E01, 0x1021, 0xF025] @ replicate 53245 0)"
    by (simp add: read_image_file_def from_bytes_big_def frombytes_def byteswap_def bind_r_def
        Let_def)
  show ?thesis
    by (simp add: img run_simps trap_def traps_def trap_halt_def br_def add_def sign_extend_def
        update_flags_def)
qed

end
